theory Spec2Isabelle
  imports Main "HOL-Library.Word" "HOL-Library.Sublist"
begin

section \<open>The SOAP envelope encoder of \<^verbatim>\<open>soap/DefaultEncoder.go\<close>\<close>

text \<open>
  The encoder reflects over one Go struct at a time, appends an XML element for it to a
  byte buffer, and on \<^verbatim>\<open>Flush\<close> wraps the buffer in the SOAP envelope and hands it to an
  \<^verbatim>\<open>io.Writer\<close>. Go strings and \<^verbatim>\<open>[]byte\<close> are byte sequences, so both are
  \<^typ>\<open>string\<close> here (a list of 8-bit characters).
\<close>

subsection \<open>Constants\<close>

definition SOAPEnvelopeStart :: string where
  \<open>SOAPEnvelopeStart = ''<?xml version="1.0" encoding="utf-8"?>\<newline><soap:Envelope xmlns:soap="http://schemas.xmlsoap.org/soap/envelope/">\<newline>  <soap:Body>\<newline>''\<close>

definition SOAPEnvelopeEnd :: string where
  \<open>SOAPEnvelopeEnd = ''  </soap:Body>\<newline></soap:Envelope>''\<close>

subsection \<open>Errors, reflected values, the encoder\<close>

text \<open>
  A Go \<^verbatim>\<open>error\<close> is identified with its message. \<^verbatim>\<open>Encode\<close> builds its only error with
  \<^verbatim>\<open>fmt.Errorf("struct must have XMLName field")\<close>; the specification calls it
  MissingRootName.
\<close>

datatype error = Error string

definition MissingRootName :: error where
  \<open>MissingRootName = Error ''struct must have XMLName field''\<close>

text \<open>
  What \<^verbatim>\<open>Encode\<close> reads of a field through \<^verbatim>\<open>reflect\<close>: for the signed integer kinds the
  result of \<^verbatim>\<open>field.Int()\<close> (an \<^verbatim>\<open>int64\<close>), for the string kind \<^verbatim>\<open>field.String()\<close>, and for
  every other kind the result of \<^verbatim>\<open>field.IsZero()\<close> together with the text of
  \<^verbatim>\<open>fmt.Sprintf("%v", field.Interface())\<close>. \<^verbatim>\<open>Interface\<close> panics on a field that is not exported:
  that is \<open>None\<close>.
\<close>

datatype fieldValue =
    IntKind \<open>64 word\<close>
  | StringKind string
  | OtherKind bool \<open>string option\<close>

text \<open>
  A struct field as \<^verbatim>\<open>typ.Field(i)\<close> and \<^verbatim>\<open>val.Field(i)\<close> give it: its Go name, the value of
  \<^verbatim>\<open>Tag.Get("xml")\<close>, and its value.
\<close>

record structField =
  Name :: string
  xmlTag :: string
  Value :: fieldValue

text \<open>
  A \<^verbatim>\<open>reflect.Value\<close>: the zero Value (of \<^verbatim>\<open>reflect.ValueOf(nil)\<close>, and of \<^verbatim>\<open>Elem\<close> on a nil
  pointer), a struct with its fields in declaration order, a pointer with the Value that
  \<^verbatim>\<open>Elem\<close> returns, and a value of any other kind (an int, a string, an interface, ...).
\<close>

datatype goValue =
    Invalid
  | Struct \<open>structField list\<close>
  | Ptr goValue
  | NonStruct

record 'w DefaultEncoder =
  writer :: 'w
  buffer :: string

definition NewEncoder :: \<open>'w \<Rightarrow> 'w DefaultEncoder\<close> where
  \<open>NewEncoder w = \<lparr>writer = w, buffer = []\<rparr>\<close>

subsection \<open>Library functions the encoder calls\<close>

text \<open>\<^verbatim>\<open>strings.Split(s, sep)\<close> for a separator of one byte, as at both call sites.\<close>

fun Split :: \<open>string \<Rightarrow> char \<Rightarrow> string list\<close> where
  \<open>Split [] sep = [[]]\<close>
| \<open>Split (c # cs) sep =
     (if c = sep then [] # Split cs sep
      else (case Split cs sep of [] \<Rightarrow> [[c]] | p # ps \<Rightarrow> (c # p) # ps))\<close>

text \<open>\<^verbatim>\<open>strings.Contains(s, substr)\<close>.\<close>

fun Contains :: \<open>string \<Rightarrow> string \<Rightarrow> bool\<close> where
  \<open>Contains [] substr = (substr = [])\<close>
| \<open>Contains (c # cs) substr = (prefix substr (c # cs) \<or> Contains cs substr)\<close>

text \<open>\<^verbatim>\<open>fmt.Sprintf("%d", i)\<close>: the decimal digits, after a minus sign when \<open>i\<close> is negative.\<close>

definition digit :: \<open>nat \<Rightarrow> char\<close> where
  \<open>digit d = char_of (48 + d)\<close>

fun digits :: \<open>nat \<Rightarrow> string\<close> where
  \<open>digits n = (if n < 10 then [digit n] else digits (n div 10) @ [digit (n mod 10)])\<close>

declare digits.simps [simp del]

definition Sprintf_d :: \<open>int \<Rightarrow> string\<close> where
  \<open>Sprintf_d i = (if i < 0 then CHR ''-'' # digits (nat (- i)) else digits (nat i))\<close>

text \<open>\<^verbatim>\<open>field.IsZero()\<close>.\<close>

fun IsZero :: \<open>fieldValue \<Rightarrow> bool\<close> where
  \<open>IsZero (IntKind i) = (i = 0)\<close>
| \<open>IsZero (StringKind s) = (length s = 0)\<close>
| \<open>IsZero (OtherKind z r) = z\<close>

subsection \<open>getXMLNameAndNamespace\<close>

text \<open>
  The loop over the fields: the first field named \<^verbatim>\<open>XMLName\<close> decides. Its tag split at
  spaces gives (local name, namespace) when there are exactly two parts, and the field's
  own name with an empty namespace otherwise; with no such field both are empty.
\<close>

fun findXMLName :: \<open>structField list \<Rightarrow> string \<times> string\<close> where
  \<open>findXMLName [] = ([], [])\<close>
| \<open>findXMLName (field # rest) =
     (if Name field = ''XMLName'' then
        (let parts = Split (xmlTag field) CHR '' '' in
         if length parts = 2 then (parts ! 1, parts ! 0) else (Name field, []))
      else findXMLName rest)\<close>

text \<open>
  \<open>None\<close> is a panic: \<^verbatim>\<open>val.Type()\<close> panics on the zero Value, and \<^verbatim>\<open>val.NumField()\<close> panics
  on a Value whose kind is not Struct.
\<close>

fun getXMLNameAndNamespace :: \<open>goValue \<Rightarrow> (string \<times> string) option\<close> where
  \<open>getXMLNameAndNamespace Invalid = None\<close>
| \<open>getXMLNameAndNamespace (Struct fs) = Some (findXMLName fs)\<close>
| \<open>getXMLNameAndNamespace (Ptr v) = None\<close>
| \<open>getXMLNameAndNamespace NonStruct = None\<close>

subsection \<open>Encode\<close>

text \<open>The \<^verbatim>\<open>switch field.Kind()\<close> that formats a field's value; \<open>None\<close> is the panic of
  \<^verbatim>\<open>field.Interface()\<close>.\<close>

fun fieldValueString :: \<open>fieldValue \<Rightarrow> string option\<close> where
  \<open>fieldValueString (IntKind i) = Some (Sprintf_d (sint i))\<close>
| \<open>fieldValueString (StringKind s) = Some s\<close>
| \<open>fieldValueString (OtherKind z r) = r\<close>

text \<open>
  The loop over the fields, on the buffer. \<open>Inr\<close> is the buffer when the loop has run
  through, \<open>Inl\<close> the buffer at the moment of a panic (\<^verbatim>\<open>parts[0]\<close> out of range, or
  \<^verbatim>\<open>field.Interface()\<close> on an unexported field).
\<close>

fun encodeFields :: \<open>structField list \<Rightarrow> string \<Rightarrow> string + string\<close> where
  \<open>encodeFields [] buf = Inr buf\<close>
| \<open>encodeFields (field # rest) buf =
     (if Name field = ''XMLName'' then encodeFields rest buf
      else
        (case Split (xmlTag field) CHR '','' of
           [] \<Rightarrow> Inl buf
         | fieldName # _ \<Rightarrow>
             if IsZero (Value field) \<and> Contains (xmlTag field) ''omitempty''
             then encodeFields rest buf
             else
               (case fieldValueString (Value field) of
                  None \<Rightarrow> Inl buf
                | Some fieldValue \<Rightarrow>
                    encodeFields rest
                      (buf @ ''\<newline>      <'' @ fieldName @ '' xmlns="">'' @ fieldValue
                           @ ''</'' @ fieldName @ ''>''))))\<close>

text \<open>How a call of \<^verbatim>\<open>Encode\<close> ends: with a panic, or returning an error or \<^verbatim>\<open>nil\<close>.\<close>

datatype outcome = Panicked | Returned \<open>error option\<close>

definition Encode :: \<open>'w DefaultEncoder \<Rightarrow> goValue \<Rightarrow> outcome \<times> 'w DefaultEncoder\<close> where
  \<open>Encode e v =
     (let val = (case v of Ptr x \<Rightarrow> x | _ \<Rightarrow> v) in
      case getXMLNameAndNamespace val of
        None \<Rightarrow> (Panicked, e)
      | Some (xmlName, namespace) \<Rightarrow>
          if xmlName = [] then (Returned (Some MissingRootName), e)
          else
            (let buf1 = (if length (buffer e) = 0 then buffer e @ SOAPEnvelopeStart
                         else buffer e);
                 buf2 = buf1 @ ''    <'' @ xmlName @ '' xmlns="'' @ namespace @ ''">''
             in case val of
                  Struct fs \<Rightarrow>
                    (case encodeFields fs buf2 of
                       Inl b \<Rightarrow> (Panicked, e\<lparr>buffer := b\<rparr>)
                     | Inr b \<Rightarrow>
                         (Returned None,
                          e\<lparr>buffer := b @ ''\<newline>    </'' @ xmlName @ ''>''\<rparr>))
                | _ \<Rightarrow> (Panicked, e\<lparr>buffer := buf2\<rparr>)))\<close>

subsection \<open>Flush\<close>

text \<open>
  The sink is any \<^verbatim>\<open>io.Writer\<close>: a state \<open>'w\<close> and a function \<open>Write\<close> that takes the state
  and the bytes and gives the number of bytes written, the error (\<open>None\<close> for \<^verbatim>\<open>nil\<close>) and
  the new state. \<^verbatim>\<open>Flush\<close> discards the number.
\<close>

type_synonym 'w Writer = \<open>'w \<Rightarrow> string \<Rightarrow> nat \<times> error option \<times> 'w\<close>

definition Flush :: \<open>'w Writer \<Rightarrow> 'w DefaultEncoder \<Rightarrow> error option \<times> 'w DefaultEncoder\<close> where
  \<open>Flush Write e =
     (if length (buffer e) > 0 then
        (let e1 = e\<lparr>buffer := buffer e @ (''\<newline>'' @ SOAPEnvelopeEnd)\<rparr> in
         case Write (writer e1) (buffer e1) of
           (n, err, w') \<Rightarrow>
             (case err of
                Some x \<Rightarrow> (Some x, e1\<lparr>writer := w'\<rparr>)
              | None \<Rightarrow> (None, e1\<lparr>writer := w', buffer := []\<rparr>)))
      else (None, e))\<close>

subsection \<open>The output format in the specification's words\<close>

text \<open>
  The specification describes the field loop declaratively: a field is emitted unless it
  is the \<^verbatim>\<open>XMLName\<close> field or it is zero and its tag holds \<^verbatim>\<open>omitempty\<close>; the element name
  is the first comma-separated segment of the tag; the element is
  \<^verbatim>\<open>\n      <fieldName xmlns="">value</fieldName>\<close>. The theorems below compare
  \<^const>\<open>encodeFields\<close> with these.
\<close>

definition emitted :: \<open>structField \<Rightarrow> bool\<close> where
  \<open>emitted f = (Name f \<noteq> ''XMLName'' \<and> \<not> (IsZero (Value f) \<and> Contains (xmlTag f) ''omitempty''))\<close>

definition elementName :: \<open>structField \<Rightarrow> string\<close> where
  \<open>elementName f = takeWhile (\<lambda>c. c \<noteq> CHR '','') (xmlTag f)\<close>

fun renderValue :: \<open>fieldValue \<Rightarrow> string\<close> where
  \<open>renderValue (IntKind i) = Sprintf_d (sint i)\<close>
| \<open>renderValue (StringKind s) = s\<close>
| \<open>renderValue (OtherKind z r) = (case r of None \<Rightarrow> [] | Some t \<Rightarrow> t)\<close>

definition fieldElement :: \<open>structField \<Rightarrow> string\<close> where
  \<open>fieldElement f =
     ''\<newline>      <'' @ elementName f @ '' xmlns="">'' @ renderValue (Value f)
       @ ''</'' @ elementName f @ ''>''\<close>

definition fieldElements :: \<open>structField list \<Rightarrow> string\<close> where
  \<open>fieldElements fs = concat (map fieldElement (filter emitted fs))\<close>

definition rootBlock :: \<open>string \<Rightarrow> string \<Rightarrow> structField list \<Rightarrow> string\<close> where
  \<open>rootBlock N U fs =
     ''    <'' @ N @ '' xmlns="'' @ U @ ''">'' @ fieldElements fs @ ''\<newline>    </'' @ N @ ''>''\<close>

text \<open>No emitted field is of another kind and unexported: the field loop does not panic.\<close>

definition panicFree :: \<open>structField list \<Rightarrow> bool\<close> where
  \<open>panicFree fs = list_all (\<lambda>f. \<not> emitted f \<or> fieldValueString (Value f) \<noteq> None) fs\<close>

text \<open>The value of a decimal digit sequence, to read back what \<^const>\<open>digits\<close> prints.\<close>

definition decimalValue :: \<open>string \<Rightarrow> nat\<close> where
  \<open>decimalValue s = foldl (\<lambda>a c. 10 * a + (of_char c - 48)) 0 s\<close>

subsection \<open>A sink and records to run the encoder on\<close>

text \<open>
  A sink in the manner of \<^verbatim>\<open>bytes.Buffer\<close> that keeps every chunk it was handed, and
  whose next \<open>failures\<close> writes fail.
\<close>

record sink =
  failures :: nat
  written :: \<open>string list\<close>

definition sinkWrite :: \<open>sink Writer\<close> where
  \<open>sinkWrite s p =
     (if failures s > 0 then (0, Some (Error ''sink closed''), s\<lparr>failures := failures s - 1\<rparr>)
      else (length p, None, s\<lparr>written := written s @ [p]\<rparr>))\<close>

definition xmlNameField :: \<open>string \<Rightarrow> structField\<close> where
  \<open>xmlNameField tag = \<lparr>Name = ''XMLName'', xmlTag = tag, Value = OtherKind True (Some ''{ }'')\<rparr>\<close>

text \<open>
  \<^verbatim>\<open>struct { XMLName xml.Name `xml:"urn:example Person"`; Name string `xml:"Name"`;
  Age int `xml:"Age,omitempty"` }\<close> with the values Alice and 30, and the same with Age 0.
\<close>

definition person :: \<open>structField list\<close> where
  \<open>person =
     [xmlNameField ''urn:example Person'',
      \<lparr>Name = ''Name'', xmlTag = ''Name'', Value = StringKind ''Alice''\<rparr>,
      \<lparr>Name = ''Age'', xmlTag = ''Age,omitempty'', Value = IntKind 30\<rparr>]\<close>

definition ageField :: \<open>64 word \<Rightarrow> structField\<close> where
  \<open>ageField n = \<lparr>Name = ''Age'', xmlTag = ''Age,omitempty'', Value = IntKind n\<rparr>\<close>

text \<open>\<^verbatim>\<open>struct { XMLName xml.Name `xml:"urn:example Ping"` }\<close>.\<close>

definition ping :: \<open>structField list\<close> where
  \<open>ping = [xmlNameField ''urn:example Ping'']\<close>

text \<open>A struct whose \<^verbatim>\<open>XMLName\<close> tag has no space, and a struct with no \<^verbatim>\<open>XMLName\<close> field.\<close>

definition untagged :: \<open>structField list\<close> where
  \<open>untagged = [xmlNameField ''Person'']\<close>

definition nameless :: \<open>structField list\<close> where
  \<open>nameless = [\<lparr>Name = ''Name'', xmlTag = ''Name'', Value = StringKind ''Alice''\<rparr>]\<close>

text \<open>A struct whose \<^verbatim>\<open>XMLName\<close> tag has three parts.\<close>

definition overtagged :: \<open>structField list\<close> where
  \<open>overtagged =
     [xmlNameField ''urn:example Person v2'',
      \<lparr>Name = ''Name'', xmlTag = ''Name'', Value = StringKind ''Alice''\<rparr>]\<close>

text \<open>
  \<^verbatim>\<open>struct { XMLName xml.Name `xml:"urn:bank Account"`; Balance int64 `xml:"Balance"`;
  Note string `xml:"Note,omitempty"`; Memo string `xml:"Memo,omitempty"`;
  Active bool `xml:"Active"`; Closed bool `xml:"Closed,omitempty"` }\<close> with the values
  \<^verbatim>\<open>-7\<close>, \<^verbatim>\<open>"a<b"\<close>, \<^verbatim>\<open>""\<close>, \<^verbatim>\<open>true\<close>, \<^verbatim>\<open>false\<close>.
\<close>

definition account :: \<open>structField list\<close> where
  \<open>account =
     [xmlNameField ''urn:bank Account'',
      \<lparr>Name = ''Balance'', xmlTag = ''Balance'', Value = IntKind (- 7)\<rparr>,
      \<lparr>Name = ''Note'', xmlTag = ''Note,omitempty'', Value = StringKind ''a<b''\<rparr>,
      \<lparr>Name = ''Memo'', xmlTag = ''Memo,omitempty'', Value = StringKind []\<rparr>,
      \<lparr>Name = ''Active'', xmlTag = ''Active'', Value = OtherKind False (Some ''true'')\<rparr>,
      \<lparr>Name = ''Closed'', xmlTag = ''Closed,omitempty'', Value = OtherKind True (Some ''false'')\<rparr>]\<close>

text \<open>An encoder on the sink above with an empty buffer, as \<^const>\<open>NewEncoder\<close> makes it.\<close>

definition freshEncoder :: \<open>nat \<Rightarrow> sink DefaultEncoder\<close> where
  \<open>freshEncoder k = NewEncoder \<lparr>failures = k, written = []\<rparr>\<close>

section \<open>Properties\<close>

subsection \<open>Library functions\<close>

lemma Split_nonempty: \<open>Split s c \<noteq> []\<close>
  by (induction s) (auto split: list.splits)

lemma Split_first: \<open>\<exists>ps. Split s c = takeWhile (\<lambda>x. x \<noteq> c) s # ps\<close>
  by (induction s) (auto split: list.splits)

lemma Split_no_separator: \<open>c \<notin> set s \<Longrightarrow> Split s c = [s]\<close>
  by (induction s) auto

lemma Split_at_separator:
  \<open>c \<notin> set s \<Longrightarrow> Split (s @ c # t) c = s # Split t c\<close>
  by (induction s) auto

subsection \<open>Flush, case by case\<close>

lemma Flush_empty: \<open>buffer e = [] \<Longrightarrow> Flush Write e = (None, e)\<close>
  by (simp add: Flush_def)

lemma Flush_written:
  assumes \<open>buffer e \<noteq> []\<close>
    and \<open>Write (writer e) (buffer e @ ''\<newline>'' @ SOAPEnvelopeEnd) = (n, None, w')\<close>
  shows \<open>Flush Write e = (None, e\<lparr>writer := w', buffer := []\<rparr>)\<close>
  using assms by (simp add: Flush_def Let_def)

lemma Flush_failed:
  assumes \<open>buffer e \<noteq> []\<close>
    and \<open>Write (writer e) (buffer e @ ''\<newline>'' @ SOAPEnvelopeEnd) = (n, Some err, w')\<close>
  shows \<open>Flush Write e =
    (Some err, e\<lparr>writer := w', buffer := buffer e @ ''\<newline>'' @ SOAPEnvelopeEnd\<rparr>)\<close>
  using assms by (simp add: Flush_def Let_def)

subsection \<open>Encode, case by case\<close>

lemma Encode_Ptr_Struct: \<open>Encode e (Ptr (Struct fs)) = Encode e (Struct fs)\<close>
  by (simp add: Encode_def)

lemma findXMLName_absent: \<open>''XMLName'' \<notin> set (map Name fs) \<Longrightarrow> findXMLName fs = ([], [])\<close>
  by (induction fs) auto

text \<open>
  The tag the specification asks for, \<^verbatim>\<open>"<namespace> <localName>"\<close> with no further space,
  gives that local name and that namespace.
\<close>

lemma Split_two_parts:
  \<open>CHR '' '' \<notin> set U \<Longrightarrow> CHR '' '' \<notin> set N \<Longrightarrow> Split (U @ CHR '' '' # N) CHR '' '' = [U, N]\<close>
  by (simp add: Split_at_separator Split_no_separator)

lemma findXMLName_wellformed:
  assumes \<open>''XMLName'' \<notin> set (map Name pre)\<close>
    and \<open>Name f = ''XMLName''\<close>
    and \<open>xmlTag f = U @ CHR '' '' # N\<close>
    and \<open>CHR '' '' \<notin> set U\<close> and \<open>CHR '' '' \<notin> set N\<close>
  shows \<open>findXMLName (pre @ f # post) = (N, U)\<close>
  using assms(1)
proof (induction pre)
  case Nil
  show ?case using assms(2,3) Split_two_parts [OF assms(4,5)] by (simp add: Let_def)
next
  case (Cons p pre)
  then show ?case by auto
qed

lemma encodeFields_panicFree:
  \<open>panicFree fs \<Longrightarrow> encodeFields fs buf = Inr (buf @ fieldElements fs)\<close>
proof (induction fs arbitrary: buf)
  case Nil
  then show ?case by (simp add: fieldElements_def)
next
  case (Cons f fs)
  obtain ps where sp: \<open>Split (xmlTag f) CHR '','' = elementName f # ps\<close>
    using Split_first [of \<open>xmlTag f\<close> \<open>CHR '',''\<close>] by (auto simp: elementName_def)
  from Cons.prems have pf: \<open>panicFree fs\<close>
    and hd: \<open>\<not> emitted f \<or> fieldValueString (Value f) \<noteq> None\<close>
    by (simp_all add: panicFree_def)
  show ?case
  proof (cases \<open>emitted f\<close>)
    case False
    then show ?thesis using Cons.IH [OF pf] sp
      by (auto simp: emitted_def fieldElements_def)
  next
    case True
    with hd obtain t where t: \<open>fieldValueString (Value f) = Some t\<close> by auto
    then have rv: \<open>renderValue (Value f) = t\<close> by (cases \<open>Value f\<close>) auto
    show ?thesis using True Cons.IH [OF pf] sp t rv
      by (auto simp: emitted_def fieldElements_def fieldElement_def)
  qed
qed

lemma Encode_Struct:
  assumes \<open>findXMLName fs = (N, U)\<close> and \<open>N \<noteq> []\<close> and \<open>panicFree fs\<close>
  shows \<open>Encode e (Struct fs) =
    (Returned None,
     e\<lparr>buffer := (if buffer e = [] then SOAPEnvelopeStart else buffer e) @ rootBlock N U fs\<rparr>)\<close>
  using assms
  by (simp add: Encode_def Let_def rootBlock_def encodeFields_panicFree)

lemma encodeFields_prefix:
  \<open>prefix buf (case encodeFields fs buf of Inl b \<Rightarrow> b | Inr b \<Rightarrow> b)\<close>
proof (induction fs arbitrary: buf)
  case Nil
  show ?case by simp
next
  case (Cons f fs)
  have step: \<open>\<And>x. prefix (buf @ x) (case encodeFields fs (buf @ x) of Inl b \<Rightarrow> b | Inr b \<Rightarrow> b)\<close>
    by (rule Cons.IH)
  have ext: \<open>\<And>x r. prefix (buf @ x) r \<Longrightarrow> prefix buf r\<close>
    using append_prefixD by blast
  show ?case
    using Cons.IH [of buf] ext [OF step]
    by (auto split: list.splits option.splits simp del: append_assoc)
qed

lemma findXMLName_malformed:
  assumes \<open>''XMLName'' \<in> set (map Name fs)\<close>
    and \<open>\<forall>f\<in>set fs. Name f = ''XMLName'' \<longrightarrow> length (Split (xmlTag f) CHR '' '') \<noteq> 2\<close>
  shows \<open>findXMLName fs = (''XMLName'', [])\<close>
  using assms by (induction fs) (auto simp: Let_def)

lemma fieldElements_append: \<open>fieldElements (xs @ ys) = fieldElements xs @ fieldElements ys\<close>
  by (simp add: fieldElements_def)

lemma fieldElements_Cons:
  \<open>fieldElements (f # fs) = (if emitted f then fieldElement f else []) @ fieldElements fs\<close>
  by (simp add: fieldElements_def)

lemma elementName_Split: \<open>elementName f = hd (Split (xmlTag f) CHR '','')\<close>
  using Split_first [of \<open>xmlTag f\<close> \<open>CHR '',''\<close>] by (auto simp: elementName_def)

lemma Split_token_prefix: \<open>Split s c = p # ps \<Longrightarrow> prefix p s\<close>
  by (induction s arbitrary: p ps) (auto split: list.splits if_splits)

lemma Split_token_Contains: \<open>tok \<in> set (Split s c) \<Longrightarrow> Contains s tok\<close>
proof (induction s)
  case Nil
  then show ?case by simp
next
  case (Cons x s)
  show ?case
  proof (cases \<open>x = c\<close>)
    case True
    with Cons show ?thesis by auto
  next
    case False
    obtain p ps where sp: \<open>Split s c = p # ps\<close>
      using Split_nonempty [of s c] by (cases \<open>Split s c\<close>) auto
    with False Cons.prems have \<open>tok = x # p \<or> tok \<in> set ps\<close> by simp
    then show ?thesis
    proof
      assume \<open>tok = x # p\<close>
      moreover have \<open>prefix p s\<close> using sp by (rule Split_token_prefix)
      ultimately show ?thesis by simp
    next
      assume \<open>tok \<in> set ps\<close>
      then have \<open>tok \<in> set (Split s c)\<close> using sp by simp
      then show ?thesis using Cons.IH by simp
    qed
  qed
qed

lemma digit_is_decimal:
  assumes \<open>k < 10\<close>
  shows \<open>digit k \<in> set ''0123456789''\<close>
proof -
  have all: \<open>\<forall>k\<in>set [0..<10]. digit k \<in> set ''0123456789''\<close>
    by code_simp
  from assms have \<open>k \<in> set [0..<10]\<close> by simp
  with all show ?thesis by blast
qed

lemma digits_are_decimal: \<open>set (digits n) \<subseteq> set ''0123456789''\<close>
proof (induction n rule: digits.induct)
  case (1 n)
  show ?case
  proof (cases \<open>n < 10\<close>)
    case True
    then show ?thesis using digit_is_decimal [of n] by (subst digits.simps) simp
  next
    case False
    with 1 have \<open>set (digits (n div 10)) \<subseteq> set ''0123456789''\<close> by simp
    with False show ?thesis
      using digit_is_decimal [of \<open>n mod 10\<close>] by (subst digits.simps) simp
  qed
qed

lemma digits_value: \<open>decimalValue (digits n) = n\<close>
proof (induction n rule: digits.induct)
  case (1 n)
  show ?case
  proof (cases \<open>n < 10\<close>)
    case True
    then show ?thesis by (subst digits.simps) (simp add: decimalValue_def digit_def)
  next
    case False
    with 1 have \<open>decimalValue (digits (n div 10)) = n div 10\<close> by simp
    with False show ?thesis by (subst digits.simps) (simp add: decimalValue_def digit_def)
  qed
qed

lemma person_panicFree: \<open>panicFree person\<close>
  by (simp add: panicFree_def person_def xmlNameField_def emitted_def)

lemma Sprintf_d_30: \<open>Sprintf_d 30 = ''30''\<close>
  by code_simp

lemma Sprintf_d_minus_7: \<open>Sprintf_d (- 7) = ''-7''\<close>
  by code_simp

lemma person_rootBlock:
  \<open>rootBlock ''Person'' ''urn:example'' person =
     ''    <Person xmlns="urn:example">\<newline>      <Name xmlns="">Alice</Name>\<newline>      <Age xmlns="">30</Age>\<newline>    </Person>''\<close>
  by (simp add: rootBlock_def fieldElements_def fieldElement_def elementName_def emitted_def
      person_def xmlNameField_def Sprintf_d_30)

lemma ping_rootBlock:
  \<open>rootBlock ''Ping'' ''urn:example'' ping = ''    <Ping xmlns="urn:example">\<newline>    </Ping>''\<close>
  by (simp add: rootBlock_def fieldElements_def emitted_def ping_def xmlNameField_def)

lemma person_fieldElements:
  \<open>fieldElements person =
     ''\<newline>      <Name xmlns="">Alice</Name>\<newline>      <Age xmlns="">30</Age>''\<close>
  by (simp add: fieldElements_def fieldElement_def elementName_def emitted_def
      person_def xmlNameField_def Sprintf_d_30)

lemma person_XMLName: \<open>getXMLNameAndNamespace (Struct person) = Some (''Person'', ''urn:example'')\<close>
  by (simp add: person_def xmlNameField_def)

lemma ping_XMLName: \<open>getXMLNameAndNamespace (Struct ping) = Some (''Ping'', ''urn:example'')\<close>
  by (simp add: ping_def xmlNameField_def)

lemma ping_panicFree: \<open>panicFree ping\<close>
  by (simp add: panicFree_def ping_def xmlNameField_def emitted_def)

lemma account_fieldElements:
  \<open>fieldElements account =
     ''\<newline>      <Balance xmlns="">-7</Balance>\<newline>      <Note xmlns="">a<b</Note>\<newline>      <Active xmlns="">true</Active>''\<close>
  by (simp add: fieldElements_def fieldElement_def elementName_def emitted_def
      account_def xmlNameField_def Sprintf_d_minus_7)

lemma account_panicFree: \<open>panicFree account\<close>
  by (simp add: panicFree_def account_def xmlNameField_def emitted_def)

lemma account_XMLName: \<open>getXMLNameAndNamespace (Struct account) = Some (''Account'', ''urn:bank'')\<close>
  by (simp add: account_def xmlNameField_def)

section \<open>The claims\<close>

subsection \<open>Flush\<close>

text \<open>
  Claim C8. \<^verbatim>\<open>Flush\<close> on an empty buffer is a no-op that succeeds: for every sink and every
  behaviour of its \<^verbatim>\<open>Write\<close>, the encoder (its sink's state included, so nothing was written
  and no envelope text was appended) is returned as it was, with no error. That holds for
  a freshly constructed encoder, for any encoder whose buffer is empty, again on a second
  call, and right after a \<^verbatim>\<open>Flush\<close> that wrote its buffer.
\<close>

theorem Flush_empty_is_noop:
  \<open>Flush Write (NewEncoder w) = (None, NewEncoder w)
   \<and> (buffer e = [] \<longrightarrow>
        Flush Write e = (None, e) \<and> Flush Write (snd (Flush Write e)) = (None, e))
   \<and> (fst (Flush Write e) = None \<longrightarrow>
        Flush Write (snd (Flush Write e)) = (None, snd (Flush Write e)))\<close>
proof -
  have fresh: \<open>Flush Write (NewEncoder w) = (None, NewEncoder w)\<close>
    by (simp add: Flush_empty NewEncoder_def)
  have empty: \<open>buffer e = [] \<longrightarrow>
      Flush Write e = (None, e) \<and> Flush Write (snd (Flush Write e)) = (None, e)\<close>
    by (simp add: Flush_empty)
  have after: \<open>fst (Flush Write e) = None \<longrightarrow>
      Flush Write (snd (Flush Write e)) = (None, snd (Flush Write e))\<close>
  proof
    assume ok: \<open>fst (Flush Write e) = None\<close>
    then have \<open>buffer (snd (Flush Write e)) = []\<close>
      by (auto simp: Flush_def Let_def split: if_splits prod.splits option.splits)
    then show \<open>Flush Write (snd (Flush Write e)) = (None, snd (Flush Write e))\<close>
      by (rule Flush_empty)
  qed
  from fresh empty after show ?thesis by blast
qed

theorem Flush_empty_is_noop_witness:
  \<open>Flush sinkWrite (freshEncoder 1) = (None, freshEncoder 1)
   \<and> Flush sinkWrite (snd (Flush sinkWrite (freshEncoder 1))) = (None, freshEncoder 1)
   \<and> fst (Flush sinkWrite (snd (Encode (freshEncoder 0) (Struct ping)))) = None
   \<and> Flush sinkWrite (snd (Flush sinkWrite (snd (Encode (freshEncoder 0) (Struct ping)))))
       = (None, snd (Flush sinkWrite (snd (Encode (freshEncoder 0) (Struct ping)))))\<close>
proof -
  have b: \<open>buffer (freshEncoder 1) = []\<close>
    by (simp add: freshEncoder_def NewEncoder_def)
  have ok: \<open>fst (Flush sinkWrite (snd (Encode (freshEncoder 0) (Struct ping)))) = None\<close>
    by (simp add: Flush_def Encode_def Let_def freshEncoder_def NewEncoder_def ping_def
        xmlNameField_def sinkWrite_def)
  from Flush_empty_is_noop [of sinkWrite \<open>\<lparr>failures = 1, written = []\<rparr>\<close> \<open>freshEncoder 1\<close>] b
  have \<open>Flush sinkWrite (freshEncoder 1) = (None, freshEncoder 1)
      \<and> Flush sinkWrite (snd (Flush sinkWrite (freshEncoder 1))) = (None, freshEncoder 1)\<close>
    by blast
  moreover from
    Flush_empty_is_noop [of sinkWrite \<open>\<lparr>failures = 1, written = []\<rparr>\<close>
      \<open>snd (Encode (freshEncoder 0) (Struct ping))\<close>] ok
  have \<open>Flush sinkWrite (snd (Flush sinkWrite (snd (Encode (freshEncoder 0) (Struct ping)))))
       = (None, snd (Flush sinkWrite (snd (Encode (freshEncoder 0) (Struct ping)))))\<close>
    by blast
  ultimately show ?thesis using ok by blast
qed

text \<open>
  Claim C1, as amended. When the sink's \<^verbatim>\<open>Write\<close> fails inside \<^verbatim>\<open>Flush\<close>, the error is
  returned to the caller and the buffer is not cleared: \<^verbatim>\<open>Flush\<close> returns before the line
  that clears it, so the buffer is non-empty and still begins with the pending XML.
\<close>

theorem Flush_failure_keeps_buffer:
  assumes \<open>buffer e \<noteq> []\<close>
    and \<open>Write (writer e) (buffer e @ ''\<newline>'' @ SOAPEnvelopeEnd) = (n, Some err, w')\<close>
  shows \<open>fst (Flush Write e) = Some err
    \<and> buffer (snd (Flush Write e)) \<noteq> []
    \<and> prefix (buffer e) (buffer (snd (Flush Write e)))\<close>
  using assms by (simp add: Flush_failed)

theorem Flush_failure_keeps_buffer_witness:
  \<open>fst (Flush sinkWrite \<lparr>writer = \<lparr>failures = 2, written = []\<rparr>, buffer = ''<a/>''\<rparr>)
     = Some (Error ''sink closed'')
   \<and> buffer (snd (Flush sinkWrite \<lparr>writer = \<lparr>failures = 2, written = []\<rparr>, buffer = ''<a/>''\<rparr>))
     \<noteq> []
   \<and> prefix ''<a/>''
       (buffer (snd (Flush sinkWrite \<lparr>writer = \<lparr>failures = 2, written = []\<rparr>, buffer = ''<a/>''\<rparr>)))\<close>
proof -
  let ?e = \<open>\<lparr>writer = \<lparr>failures = 2, written = []\<rparr>, buffer = ''<a/>''\<rparr>\<close>
  have h1: \<open>buffer ?e \<noteq> []\<close> by simp
  have h2: \<open>sinkWrite (writer ?e) (buffer ?e @ ''\<newline>'' @ SOAPEnvelopeEnd)
      = (0, Some (Error ''sink closed''), \<lparr>failures = 1, written = []\<rparr>)\<close>
    by (simp add: sinkWrite_def)
  from Flush_failure_keeps_buffer
    [where e = ?e and Write = sinkWrite and n = 0 and err = \<open>Error ''sink closed''\<close>
       and w' = \<open>\<lparr>failures = 1, written = []\<rparr>\<close>, OF h1 h2]
  show ?thesis by simp
qed

text \<open>
  The claim as it was stated (the buffer is left cleared when the write fails) is false:
  a fresh encoder on a sink whose next write fails, after encoding one record, still
  holds the envelope with that record and the closing text once \<^verbatim>\<open>Flush\<close> has returned the
  sink's error.
\<close>

theorem Flush_failure_clears_buffer_counterexample:
  \<open>Flush sinkWrite (snd (Encode (freshEncoder 1) (Struct ping))) =
    (Some (Error ''sink closed''),
     \<lparr>writer = \<lparr>failures = 0, written = []\<rparr>,
      buffer = SOAPEnvelopeStart
        @ ''    <Ping xmlns="urn:example">\<newline>    </Ping>\<newline>'' @ SOAPEnvelopeEnd\<rparr>)
   \<and> buffer (snd (Flush sinkWrite (snd (Encode (freshEncoder 1) (Struct ping))))) \<noteq> []\<close>
  by (simp add: Encode_def Flush_def freshEncoder_def NewEncoder_def ping_def xmlNameField_def
      sinkWrite_def Let_def)

text \<open>
  Claim C9. When the write of a \<^verbatim>\<open>Flush\<close> fails, the closing text is already at the end of
  the buffer that is kept. The next \<^verbatim>\<open>Flush\<close> appends it again, so what it hands to the
  sink is the pending XML followed by the closing text twice; when that write succeeds
  the buffer is cleared.
\<close>

theorem Flush_retry_doubles_closing:
  assumes \<open>buffer e \<noteq> []\<close>
    and \<open>Write (writer e) (buffer e @ ''\<newline>'' @ SOAPEnvelopeEnd) = (n1, Some err, w1)\<close>
    and \<open>Write w1 (buffer e @ ''\<newline>'' @ SOAPEnvelopeEnd @ ''\<newline>'' @ SOAPEnvelopeEnd)
           = (n2, None, w2)\<close>
  shows \<open>Flush Write e =
      (Some err, e\<lparr>writer := w1, buffer := buffer e @ ''\<newline>'' @ SOAPEnvelopeEnd\<rparr>)
    \<and> Flush Write (snd (Flush Write e)) = (None, e\<lparr>writer := w2, buffer := []\<rparr>)\<close>
proof -
  let ?e1 = \<open>e\<lparr>writer := w1, buffer := buffer e @ ''\<newline>'' @ SOAPEnvelopeEnd\<rparr>\<close>
  have first: \<open>Flush Write e = (Some err, ?e1)\<close>
    using assms(1,2) by (rule Flush_failed)
  have ne: \<open>buffer ?e1 \<noteq> []\<close> by simp
  have wr: \<open>Write (writer ?e1) (buffer ?e1 @ ''\<newline>'' @ SOAPEnvelopeEnd) = (n2, None, w2)\<close>
    using assms(3) by simp
  have \<open>Flush Write ?e1 = (None, ?e1\<lparr>writer := w2, buffer := []\<rparr>)\<close>
    using ne wr by (rule Flush_written)
  with first show ?thesis by simp
qed

theorem Flush_retry_doubles_closing_witness:
  \<open>Flush sinkWrite (snd (Flush sinkWrite (snd (Encode (freshEncoder 1) (Struct ping))))) =
    (None,
     \<lparr>writer = \<lparr>failures = 0, written =
        [SOAPEnvelopeStart @ ''    <Ping xmlns="urn:example">\<newline>    </Ping>''
          @ ''\<newline>'' @ SOAPEnvelopeEnd @ ''\<newline>'' @ SOAPEnvelopeEnd]\<rparr>,
      buffer = []\<rparr>)\<close>
proof -
  let ?b = \<open>SOAPEnvelopeStart @ ''    <Ping xmlns="urn:example">\<newline>    </Ping>''\<close>
  let ?e = \<open>\<lparr>writer = \<lparr>failures = 1, written = []\<rparr>, buffer = ?b\<rparr>\<close>
  have enc: \<open>snd (Encode (freshEncoder 1) (Struct ping)) = ?e\<close>
    by (simp add: Encode_def freshEncoder_def NewEncoder_def ping_def xmlNameField_def Let_def)
  have h1: \<open>buffer ?e \<noteq> []\<close> by simp
  have h2: \<open>sinkWrite (writer ?e) (buffer ?e @ ''\<newline>'' @ SOAPEnvelopeEnd)
      = (0, Some (Error ''sink closed''), \<lparr>failures = 0, written = []\<rparr>)\<close>
    by (simp add: sinkWrite_def)
  have h3: \<open>sinkWrite \<lparr>failures = 0, written = []\<rparr>
        (buffer ?e @ ''\<newline>'' @ SOAPEnvelopeEnd @ ''\<newline>'' @ SOAPEnvelopeEnd)
      = (length (buffer ?e @ ''\<newline>'' @ SOAPEnvelopeEnd @ ''\<newline>'' @ SOAPEnvelopeEnd), None,
         \<lparr>failures = 0, written =
           [buffer ?e @ ''\<newline>'' @ SOAPEnvelopeEnd @ ''\<newline>'' @ SOAPEnvelopeEnd]\<rparr>)\<close>
    by (simp add: sinkWrite_def)
  from Flush_retry_doubles_closing
    [where e = ?e and Write = sinkWrite and ?n1.0 = 0 and err = \<open>Error ''sink closed''\<close>
       and ?w1.0 = \<open>\<lparr>failures = 0, written = []\<rparr>\<close>, OF h1 h2 h3]
  have \<open>Flush sinkWrite (snd (Flush sinkWrite ?e)) =
      (None, ?e\<lparr>writer := \<lparr>failures = 0, written =
           [buffer ?e @ ''\<newline>'' @ SOAPEnvelopeEnd @ ''\<newline>'' @ SOAPEnvelopeEnd]\<rparr>,
         buffer := []\<rparr>)\<close>
    by (rule conjunct2)
  then show ?thesis unfolding enc by simp
qed

subsection \<open>Encode: the root name\<close>

text \<open>
  Claim C3. For a struct with no field named \<^verbatim>\<open>XMLName\<close>, passed by value or through one
  pointer, \<^verbatim>\<open>Encode\<close> returns the MissingRootName error and the encoder is returned as it
  was: the rejection comes before the first append to the buffer.
\<close>

theorem Encode_without_XMLName:
  assumes \<open>''XMLName'' \<notin> set (map Name fs)\<close>
  shows \<open>Encode e (Struct fs) = (Returned (Some MissingRootName), e)
    \<and> Encode e (Ptr (Struct fs)) = (Returned (Some MissingRootName), e)\<close>
  using findXMLName_absent [OF assms] by (simp add: Encode_def)

text \<open>
  At a struct with the one field \<^verbatim>\<open>Name\<close>: the call is rejected, and encoding and flushing
  a valid record right after it writes an envelope with that record's root element alone.
\<close>

theorem Encode_without_XMLName_witness:
  \<open>Encode (freshEncoder 0) (Struct nameless) = (Returned (Some MissingRootName), freshEncoder 0)
   \<and> Encode (freshEncoder 0) (Ptr (Struct nameless))
       = (Returned (Some MissingRootName), freshEncoder 0)
   \<and> Flush sinkWrite (snd (Encode (snd (Encode (freshEncoder 0) (Struct nameless))) (Struct ping)))
       = (None,
          \<lparr>writer = \<lparr>failures = 0, written =
             [SOAPEnvelopeStart @ ''    <Ping xmlns="urn:example">\<newline>    </Ping>''
               @ ''\<newline>'' @ SOAPEnvelopeEnd]\<rparr>,
           buffer = []\<rparr>)\<close>
proof -
  have h: \<open>''XMLName'' \<notin> set (map Name nameless)\<close>
    by (simp add: nameless_def)
  note r = Encode_without_XMLName [OF h, of \<open>freshEncoder 0\<close>]
  have \<open>Flush sinkWrite (snd (Encode (freshEncoder 0) (Struct ping)))
       = (None,
          \<lparr>writer = \<lparr>failures = 0, written =
             [SOAPEnvelopeStart @ ''    <Ping xmlns="urn:example">\<newline>    </Ping>''
               @ ''\<newline>'' @ SOAPEnvelopeEnd]\<rparr>,
           buffer = []\<rparr>)\<close>
    by (simp add: Encode_def Flush_def freshEncoder_def NewEncoder_def ping_def xmlNameField_def
        sinkWrite_def Let_def)
  with r show ?thesis by simp
qed

text \<open>
  Claim C2, as amended. For a struct whose \<^verbatim>\<open>XMLName\<close> field is present with a tag that does
  not split at single spaces into exactly two parts, \<^verbatim>\<open>getXMLNameAndNamespace\<close> falls back to
  the field's own name \<^verbatim>\<open>XMLName\<close> with an empty namespace. \<^verbatim>\<open>Encode\<close> therefore does not
  return MissingRootName: it appends \<^verbatim>\<open><XMLName xmlns="">\<close> to the buffer (after the
  envelope opening when the buffer was empty) and, when no field makes the reflection
  panic, returns \<^verbatim>\<open>nil\<close> with the whole root element appended.
\<close>

theorem Encode_malformed_XMLName:
  assumes \<open>''XMLName'' \<in> set (map Name fs)\<close>
    and \<open>\<forall>f\<in>set fs. Name f = ''XMLName'' \<longrightarrow> length (Split (xmlTag f) CHR '' '') \<noteq> 2\<close>
  shows \<open>getXMLNameAndNamespace (Struct fs) = Some (''XMLName'', [])
    \<and> fst (Encode e (Struct fs)) \<noteq> Returned (Some MissingRootName)
    \<and> prefix ((if buffer e = [] then SOAPEnvelopeStart else buffer e) @ ''    <XMLName xmlns="">'')
         (buffer (snd (Encode e (Struct fs))))
    \<and> (panicFree fs \<longrightarrow> Encode e (Struct fs) =
         (Returned None,
          e\<lparr>buffer := (if buffer e = [] then SOAPEnvelopeStart else buffer e)
                       @ rootBlock ''XMLName'' [] fs\<rparr>))\<close>
proof -
  have fx: \<open>findXMLName fs = (''XMLName'', [])\<close>
    using assms by (rule findXMLName_malformed)
  let ?b = \<open>(if buffer e = [] then SOAPEnvelopeStart else buffer e) @ ''    <XMLName xmlns="">''\<close>
  have pre: \<open>prefix ?b (case encodeFields fs ?b of Inl b \<Rightarrow> b | Inr b \<Rightarrow> b)\<close>
    by (rule encodeFields_prefix)
  have c1: \<open>getXMLNameAndNamespace (Struct fs) = Some (''XMLName'', [])\<close>
    using fx by simp
  have c23: \<open>fst (Encode e (Struct fs)) \<noteq> Returned (Some MissingRootName)
      \<and> prefix ?b (buffer (snd (Encode e (Struct fs))))\<close>
  proof (cases \<open>encodeFields fs ?b\<close>)
    case (Inl b)
    with pre have \<open>prefix ?b b\<close> by simp
    moreover have \<open>Encode e (Struct fs) = (Panicked, e\<lparr>buffer := b\<rparr>)\<close>
      using fx Inl by (simp add: Encode_def Let_def split: if_splits)
    ultimately show ?thesis by simp
  next
    case (Inr b)
    with pre have \<open>prefix ?b b\<close> by simp
    then have \<open>prefix ?b (b @ ''\<newline>    </XMLName>'')\<close>
      by (rule prefix_prefix)
    moreover have \<open>Encode e (Struct fs) =
        (Returned None, e\<lparr>buffer := b @ ''\<newline>    </XMLName>''\<rparr>)\<close>
      using fx Inr by (simp add: Encode_def Let_def split: if_splits)
    ultimately show ?thesis by simp
  qed
  have c4: \<open>panicFree fs \<longrightarrow> Encode e (Struct fs) =
         (Returned None,
          e\<lparr>buffer := (if buffer e = [] then SOAPEnvelopeStart else buffer e)
                       @ rootBlock ''XMLName'' [] fs\<rparr>)\<close>
    using fx Encode_Struct [of fs \<open>''XMLName''\<close> \<open>[]\<close> e] by simp
  from c1 c23 c4 show ?thesis by blast
qed

theorem Encode_malformed_XMLName_witness:
  \<open>getXMLNameAndNamespace (Struct overtagged) = Some (''XMLName'', [])
   \<and> Encode (freshEncoder 0) (Struct overtagged) =
       (Returned None,
        \<lparr>writer = \<lparr>failures = 0, written = []\<rparr>,
         buffer = SOAPEnvelopeStart
           @ ''    <XMLName xmlns="">\<newline>      <Name xmlns="">Alice</Name>\<newline>    </XMLName>''\<rparr>)\<close>
proof -
  have h1: \<open>''XMLName'' \<in> set (map Name overtagged)\<close>
    by (simp add: overtagged_def xmlNameField_def)
  have h2: \<open>\<forall>f\<in>set overtagged.
      Name f = ''XMLName'' \<longrightarrow> length (Split (xmlTag f) CHR '' '') \<noteq> 2\<close>
    by (simp add: overtagged_def xmlNameField_def)
  have h3: \<open>panicFree overtagged\<close>
    by (simp add: panicFree_def overtagged_def xmlNameField_def emitted_def)
  have rb: \<open>rootBlock ''XMLName'' [] overtagged =
      ''    <XMLName xmlns="">\<newline>      <Name xmlns="">Alice</Name>\<newline>    </XMLName>''\<close>
    by (simp add: rootBlock_def fieldElements_def fieldElement_def elementName_def emitted_def
        overtagged_def xmlNameField_def)
  from Encode_malformed_XMLName [OF h1 h2, of \<open>freshEncoder 0\<close>] h3 rb
  show ?thesis by (simp add: freshEncoder_def NewEncoder_def)
qed

text \<open>
  The claim as it was stated (MissingRootName, buffer unchanged) is false: with the tag
  \<^verbatim>\<open>Person\<close>, which has one part, \<^verbatim>\<open>Encode\<close> returns \<^verbatim>\<open>nil\<close> and the buffer holds the envelope
  opening and an \<^verbatim>\<open>XMLName\<close> element.
\<close>

theorem Encode_malformed_XMLName_counterexample:
  \<open>Encode (freshEncoder 0) (Struct untagged) =
     (Returned None,
      \<lparr>writer = \<lparr>failures = 0, written = []\<rparr>,
       buffer = SOAPEnvelopeStart @ ''    <XMLName xmlns="">\<newline>    </XMLName>''\<rparr>)
   \<and> fst (Encode (freshEncoder 0) (Struct untagged)) \<noteq> Returned (Some MissingRootName)
   \<and> buffer (snd (Encode (freshEncoder 0) (Struct untagged))) \<noteq> buffer (freshEncoder 0)\<close>
  by (simp add: Encode_def freshEncoder_def NewEncoder_def untagged_def xmlNameField_def Let_def
      SOAPEnvelopeStart_def)

text \<open>
  Claim C10. \<^verbatim>\<open>Encode\<close> dereferences at most one pointer. When what it then holds is not a
  struct (the zero Value of a nil interface or nil pointer, a pointer to a pointer, an
  int, a string, ...), \<^verbatim>\<open>getXMLNameAndNamespace\<close> panics in \<^verbatim>\<open>val.Type()\<close> or
  \<^verbatim>\<open>val.NumField()\<close>: the call ends in a panic, not in a returned error, with the encoder
  untouched. On a struct, or a pointer to one, whose emitted fields can all be
  formatted, \<^verbatim>\<open>Encode\<close> returns.
\<close>

theorem Encode_panics_outside_structs:
  \<open>((\<forall>fs. (case v of Ptr x \<Rightarrow> x | _ \<Rightarrow> v) \<noteq> Struct fs) \<longrightarrow> Encode e v = (Panicked, e))
   \<and> (panicFree fs \<longrightarrow>
        (\<exists>r. fst (Encode e (Struct fs)) = Returned r \<and> fst (Encode e (Ptr (Struct fs))) = Returned r))\<close>
proof -
  have panics: \<open>(\<forall>fs. (case v of Ptr x \<Rightarrow> x | _ \<Rightarrow> v) \<noteq> Struct fs) \<longrightarrow> Encode e v = (Panicked, e)\<close>
  proof (cases v)
    case (Ptr x)
    then show ?thesis by (cases x) (simp_all add: Encode_def)
  qed (simp_all add: Encode_def)
  have returns: \<open>panicFree fs \<longrightarrow>
      (\<exists>r. fst (Encode e (Struct fs)) = Returned r \<and> fst (Encode e (Ptr (Struct fs))) = Returned r)\<close>
  proof
    assume pf: \<open>panicFree fs\<close>
    obtain N U where fx: \<open>findXMLName fs = (N, U)\<close> by (cases \<open>findXMLName fs\<close>)
    show \<open>\<exists>r. fst (Encode e (Struct fs)) = Returned r \<and> fst (Encode e (Ptr (Struct fs))) = Returned r\<close>
    proof (cases \<open>N = []\<close>)
      case True
      with fx show ?thesis by (simp add: Encode_def)
    next
      case False
      with fx pf show ?thesis by (simp add: Encode_Ptr_Struct Encode_Struct)
    qed
  qed
  from panics returns show ?thesis by blast
qed

theorem Encode_panics_outside_structs_witness:
  \<open>Encode (freshEncoder 0) NonStruct = (Panicked, freshEncoder 0)
   \<and> Encode (freshEncoder 0) Invalid = (Panicked, freshEncoder 0)
   \<and> Encode (freshEncoder 0) (Ptr Invalid) = (Panicked, freshEncoder 0)
   \<and> Encode (freshEncoder 0) (Ptr (Ptr (Struct person))) = (Panicked, freshEncoder 0)
   \<and> (\<exists>r. fst (Encode (freshEncoder 0) (Struct person)) = Returned r
          \<and> fst (Encode (freshEncoder 0) (Ptr (Struct person))) = Returned r)\<close>
proof -
  have pf: \<open>panicFree person\<close>
    by (simp add: panicFree_def person_def xmlNameField_def emitted_def)
  from Encode_panics_outside_structs [of NonStruct \<open>freshEncoder 0\<close> person] pf
  have a: \<open>Encode (freshEncoder 0) NonStruct = (Panicked, freshEncoder 0)
      \<and> (\<exists>r. fst (Encode (freshEncoder 0) (Struct person)) = Returned r
          \<and> fst (Encode (freshEncoder 0) (Ptr (Struct person))) = Returned r)\<close>
    by simp
  from Encode_panics_outside_structs [of Invalid \<open>freshEncoder 0\<close> person]
  have b: \<open>Encode (freshEncoder 0) Invalid = (Panicked, freshEncoder 0)\<close>
    by simp
  from Encode_panics_outside_structs [of \<open>Ptr Invalid\<close> \<open>freshEncoder 0\<close> person]
  have c: \<open>Encode (freshEncoder 0) (Ptr Invalid) = (Panicked, freshEncoder 0)\<close>
    by simp
  from Encode_panics_outside_structs [of \<open>Ptr (Ptr (Struct person))\<close> \<open>freshEncoder 0\<close> person]
  have d: \<open>Encode (freshEncoder 0) (Ptr (Ptr (Struct person))) = (Panicked, freshEncoder 0)\<close>
    by simp
  from a b c d show ?thesis by blast
qed

subsection \<open>Encode and Flush together\<close>

text \<open>
  Claim C4. Take an encoder with an empty buffer and a struct whose root name \<open>N\<close> (not
  empty) and namespace \<open>U\<close> are what \<^verbatim>\<open>getXMLNameAndNamespace\<close> returns, and whose emitted
  fields can all be formatted. \<^verbatim>\<open>Encode\<close> returns \<^verbatim>\<open>nil\<close> with the envelope opening and the one
  root block \<^verbatim>\<open><N xmlns="U">...</N>\<close> in the buffer. \<^verbatim>\<open>Flush\<close> then hands the sink exactly
  the opening, that block, a newline and the envelope closing, and when the sink accepts
  it the buffer is empty again. (A tag \<^verbatim>\<open>"U N"\<close> with no further space gives this \<open>N\<close> and
  \<open>U\<close>: lemma \<open>findXMLName_wellformed\<close>.)
\<close>

theorem Encode_then_Flush:
  assumes \<open>buffer e = []\<close>
    and \<open>getXMLNameAndNamespace (Struct fs) = Some (N, U)\<close>
    and \<open>N \<noteq> []\<close>
    and \<open>panicFree fs\<close>
    and \<open>Write (writer e)
           (SOAPEnvelopeStart
              @ ''    <'' @ N @ '' xmlns="'' @ U @ ''">'' @ fieldElements fs @ ''\<newline>    </'' @ N @ ''>''
              @ ''\<newline>'' @ SOAPEnvelopeEnd)
         = (n, None, w')\<close>
  shows \<open>Encode e (Struct fs) =
      (Returned None,
       e\<lparr>buffer := SOAPEnvelopeStart
          @ ''    <'' @ N @ '' xmlns="'' @ U @ ''">'' @ fieldElements fs @ ''\<newline>    </'' @ N @ ''>''\<rparr>)
    \<and> Flush Write (snd (Encode e (Struct fs))) = (None, e\<lparr>writer := w', buffer := []\<rparr>)\<close>
proof -
  let ?b = \<open>SOAPEnvelopeStart
      @ ''    <'' @ N @ '' xmlns="'' @ U @ ''">'' @ fieldElements fs @ ''\<newline>    </'' @ N @ ''>''\<close>
  from assms(2) have fx: \<open>findXMLName fs = (N, U)\<close> by simp
  have enc: \<open>Encode e (Struct fs) = (Returned None, e\<lparr>buffer := ?b\<rparr>)\<close>
    using Encode_Struct [OF fx assms(3,4), of e] assms(1) by (simp add: rootBlock_def)
  have ne: \<open>buffer (e\<lparr>buffer := ?b\<rparr>) \<noteq> []\<close> by simp
  have wr: \<open>Write (writer (e\<lparr>buffer := ?b\<rparr>))
      (buffer (e\<lparr>buffer := ?b\<rparr>) @ ''\<newline>'' @ SOAPEnvelopeEnd) = (n, None, w')\<close>
    using assms(5) by simp
  have \<open>Flush Write (e\<lparr>buffer := ?b\<rparr>) = (None, e\<lparr>buffer := ?b\<rparr>\<lparr>writer := w', buffer := []\<rparr>)\<close>
    using ne wr by (rule Flush_written)
  with enc show ?thesis by simp
qed

theorem Encode_then_Flush_witness:
  \<open>Flush sinkWrite (snd (Encode (freshEncoder 0) (Struct person))) =
     (None,
      \<lparr>writer = \<lparr>failures = 0, written =
         [SOAPEnvelopeStart
            @ ''    <Person xmlns="urn:example">\<newline>      <Name xmlns="">Alice</Name>\<newline>      <Age xmlns="">30</Age>\<newline>    </Person>\<newline>''
            @ SOAPEnvelopeEnd]\<rparr>,
       buffer = []\<rparr>)\<close>
proof -
  let ?d = \<open>SOAPEnvelopeStart
      @ ''    <'' @ ''Person'' @ '' xmlns="'' @ ''urn:example'' @ ''">'' @ fieldElements person
      @ ''\<newline>    </'' @ ''Person'' @ ''>'' @ ''\<newline>'' @ SOAPEnvelopeEnd\<close>
  have h1: \<open>buffer (freshEncoder 0) = []\<close>
    by (simp add: freshEncoder_def NewEncoder_def)
  have h3: \<open>''Person'' \<noteq> []\<close> by simp
  have h5: \<open>sinkWrite (writer (freshEncoder 0)) ?d
      = (length ?d, None, \<lparr>failures = 0, written = [?d]\<rparr>)\<close>
    by (simp add: sinkWrite_def freshEncoder_def NewEncoder_def)
  from Encode_then_Flush
    [where e = \<open>freshEncoder 0\<close> and fs = person and N = \<open>''Person''\<close> and U = \<open>''urn:example''\<close>
       and Write = sinkWrite and n = \<open>length ?d\<close> and w' = \<open>\<lparr>failures = 0, written = [?d]\<rparr>\<close>,
     OF h1 person_XMLName h3 person_panicFree h5]
  have \<open>Flush sinkWrite (snd (Encode (freshEncoder 0) (Struct person))) =
      (None, (freshEncoder 0)\<lparr>writer := \<lparr>failures = 0, written = [?d]\<rparr>, buffer := []\<rparr>)\<close>
    by (rule conjunct2)
  then show ?thesis
    by (simp add: person_fieldElements freshEncoder_def NewEncoder_def)
qed

text \<open>
  Claim C5. Take an encoder with an empty buffer and two such structs \<open>A\<close> and \<open>B\<close>. The
  first \<^verbatim>\<open>Encode\<close> finds the buffer empty and puts the envelope opening before \<open>A\<close>'s root
  block; the second finds it non-empty and appends \<open>B\<close>'s root block alone, as \<^verbatim>\<open>Encode\<close>
  does on every non-empty buffer. \<^verbatim>\<open>Flush\<close> hands the sink, in one \<^verbatim>\<open>Write\<close>, the opening,
  \<open>A\<close>'s block, \<open>B\<close>'s block, a newline and the closing; the sink's state afterwards is the
  one that this single \<^verbatim>\<open>Write\<close> returned, and the buffer is empty.
\<close>

theorem Encode_twice_then_Flush:
  assumes \<open>buffer e = []\<close>
    and \<open>getXMLNameAndNamespace (Struct A) = Some (NA, UA)\<close> and \<open>NA \<noteq> []\<close> and \<open>panicFree A\<close>
    and \<open>getXMLNameAndNamespace (Struct B) = Some (NB, UB)\<close> and \<open>NB \<noteq> []\<close> and \<open>panicFree B\<close>
    and \<open>Write (writer e)
           (SOAPEnvelopeStart @ rootBlock NA UA A @ rootBlock NB UB B @ ''\<newline>'' @ SOAPEnvelopeEnd)
         = (n, None, w')\<close>
  shows \<open>Encode e (Struct A) = (Returned None, e\<lparr>buffer := SOAPEnvelopeStart @ rootBlock NA UA A\<rparr>)
    \<and> Encode (snd (Encode e (Struct A))) (Struct B) =
        (Returned None, e\<lparr>buffer := SOAPEnvelopeStart @ rootBlock NA UA A @ rootBlock NB UB B\<rparr>)
    \<and> Flush Write (snd (Encode (snd (Encode e (Struct A))) (Struct B))) =
        (None, e\<lparr>writer := w', buffer := []\<rparr>)
    \<and> (\<forall>e'. buffer e' \<noteq> [] \<longrightarrow>
          Encode e' (Struct B) = (Returned None, e'\<lparr>buffer := buffer e' @ rootBlock NB UB B\<rparr>))\<close>
proof -
  let ?a = \<open>SOAPEnvelopeStart @ rootBlock NA UA A\<close>
  let ?ab = \<open>SOAPEnvelopeStart @ rootBlock NA UA A @ rootBlock NB UB B\<close>
  from assms(2) have fa: \<open>findXMLName A = (NA, UA)\<close> by simp
  from assms(5) have fb: \<open>findXMLName B = (NB, UB)\<close> by simp
  have encA: \<open>Encode e (Struct A) = (Returned None, e\<lparr>buffer := ?a\<rparr>)\<close>
    using Encode_Struct [OF fa assms(3,4), of e] assms(1) by simp
  have lazy: \<open>\<forall>e'. buffer e' \<noteq> [] \<longrightarrow>
      Encode e' (Struct B) = (Returned None, e'\<lparr>buffer := buffer e' @ rootBlock NB UB B\<rparr>)\<close>
    by (simp add: Encode_Struct [OF fb assms(6,7)])
  have sne: \<open>SOAPEnvelopeStart \<noteq> []\<close> by (simp add: SOAPEnvelopeStart_def)
  have encB: \<open>Encode (e\<lparr>buffer := ?a\<rparr>) (Struct B) = (Returned None, e\<lparr>buffer := ?ab\<rparr>)\<close>
    using Encode_Struct [OF fb assms(6,7), of \<open>e\<lparr>buffer := ?a\<rparr>\<close>] sne by simp
  have ne: \<open>buffer (e\<lparr>buffer := ?ab\<rparr>) \<noteq> []\<close> using sne by simp
  have wr: \<open>Write (writer (e\<lparr>buffer := ?ab\<rparr>))
      (buffer (e\<lparr>buffer := ?ab\<rparr>) @ ''\<newline>'' @ SOAPEnvelopeEnd) = (n, None, w')\<close>
    using assms(8) by simp
  have fl: \<open>Flush Write (e\<lparr>buffer := ?ab\<rparr>) = (None, e\<lparr>buffer := ?ab\<rparr>\<lparr>writer := w', buffer := []\<rparr>)\<close>
    using ne wr by (rule Flush_written)
  from encA encB fl lazy show ?thesis by simp
qed

theorem Encode_twice_then_Flush_witness:
  \<open>Flush sinkWrite (snd (Encode (snd (Encode (freshEncoder 0) (Struct person))) (Struct ping))) =
     (None,
      \<lparr>writer = \<lparr>failures = 0, written =
         [SOAPEnvelopeStart
            @ ''    <Person xmlns="urn:example">\<newline>      <Name xmlns="">Alice</Name>\<newline>      <Age xmlns="">30</Age>\<newline>    </Person>''
            @ ''    <Ping xmlns="urn:example">\<newline>    </Ping>''
            @ ''\<newline>'' @ SOAPEnvelopeEnd]\<rparr>,
       buffer = []\<rparr>)\<close>
proof -
  let ?d = \<open>SOAPEnvelopeStart @ rootBlock ''Person'' ''urn:example'' person
      @ rootBlock ''Ping'' ''urn:example'' ping @ ''\<newline>'' @ SOAPEnvelopeEnd\<close>
  have h1: \<open>buffer (freshEncoder 0) = []\<close>
    by (simp add: freshEncoder_def NewEncoder_def)
  have h3: \<open>''Person'' \<noteq> []\<close> by simp
  have h6: \<open>''Ping'' \<noteq> []\<close> by simp
  have h8: \<open>sinkWrite (writer (freshEncoder 0)) ?d
      = (length ?d, None, \<lparr>failures = 0, written = [?d]\<rparr>)\<close>
    by (simp add: sinkWrite_def freshEncoder_def NewEncoder_def)
  from Encode_twice_then_Flush
    [where e = \<open>freshEncoder 0\<close> and A = person and NA = \<open>''Person''\<close> and UA = \<open>''urn:example''\<close>
       and B = ping and NB = \<open>''Ping''\<close> and UB = \<open>''urn:example''\<close>
       and Write = sinkWrite and n = \<open>length ?d\<close> and w' = \<open>\<lparr>failures = 0, written = [?d]\<rparr>\<close>,
     OF h1 person_XMLName h3 person_panicFree ping_XMLName h6 ping_panicFree h8]
  have \<open>Flush sinkWrite (snd (Encode (snd (Encode (freshEncoder 0) (Struct person))) (Struct ping))) =
      (None, (freshEncoder 0)\<lparr>writer := \<lparr>failures = 0, written = [?d]\<rparr>, buffer := []\<rparr>)\<close>
    by blast
  then show ?thesis
    by (simp add: person_rootBlock ping_rootBlock freshEncoder_def NewEncoder_def)
qed

subsection \<open>Encode: the fields\<close>

text \<open>
  Claim C6. Take a struct that \<^verbatim>\<open>Encode\<close> accepts and one of its fields \<open>f\<close>, not the
  \<^verbatim>\<open>XMLName\<close> field, whose tag has \<^verbatim>\<open>omitempty\<close> among the modifiers after the first comma. What
  \<^verbatim>\<open>Encode\<close> appends between the root's opening and closing tags is the elements of the
  fields before \<open>f\<close>, then nothing when \<open>f\<close>'s value is zero and \<open>f\<close>'s element (which is
  never empty) when it is not, then the elements of the fields after \<open>f\<close>.
\<close>

theorem omitempty_field:
  assumes \<open>Name f \<noteq> ''XMLName''\<close>
    and \<open>''omitempty'' \<in> set (tl (Split (xmlTag f) CHR '',''))\<close>
    and \<open>getXMLNameAndNamespace (Struct (pre @ f # post)) = Some (N, U)\<close>
    and \<open>N \<noteq> []\<close>
    and \<open>panicFree (pre @ f # post)\<close>
  shows \<open>Encode e (Struct (pre @ f # post)) =
      (Returned None,
       e\<lparr>buffer := (if buffer e = [] then SOAPEnvelopeStart else buffer e)
          @ ''    <'' @ N @ '' xmlns="'' @ U @ ''">''
          @ fieldElements pre @ (if IsZero (Value f) then [] else fieldElement f) @ fieldElements post
          @ ''\<newline>    </'' @ N @ ''>''\<rparr>)
    \<and> fieldElement f \<noteq> []\<close>
proof -
  from assms(2) have \<open>''omitempty'' \<in> set (Split (xmlTag f) CHR '','')\<close>
    by (cases \<open>Split (xmlTag f) CHR '',''\<close>) auto
  then have \<open>Contains (xmlTag f) ''omitempty''\<close>
    by (rule Split_token_Contains)
  with assms(1) have em: \<open>emitted f = (\<not> IsZero (Value f))\<close>
    by (simp add: emitted_def)
  from assms(3) have fx: \<open>findXMLName (pre @ f # post) = (N, U)\<close> by simp
  have \<open>fieldElements (pre @ f # post) =
      fieldElements pre @ (if IsZero (Value f) then [] else fieldElement f) @ fieldElements post\<close>
    using em by (simp add: fieldElements_append fieldElements_Cons)
  with Encode_Struct [OF fx assms(4,5), of e]
  have \<open>Encode e (Struct (pre @ f # post)) =
      (Returned None,
       e\<lparr>buffer := (if buffer e = [] then SOAPEnvelopeStart else buffer e)
          @ ''    <'' @ N @ '' xmlns="'' @ U @ ''">''
          @ fieldElements pre @ (if IsZero (Value f) then [] else fieldElement f) @ fieldElements post
          @ ''\<newline>    </'' @ N @ ''>''\<rparr>)\<close>
    by (simp add: rootBlock_def)
  moreover have \<open>fieldElement f \<noteq> []\<close>
    by (simp add: fieldElement_def)
  ultimately show ?thesis by blast
qed

theorem omitempty_field_witness:
  \<open>Encode (freshEncoder 0) (Struct ([xmlNameField ''urn:example Person''] @ ageField 0 # [])) =
     (Returned None,
      \<lparr>writer = \<lparr>failures = 0, written = []\<rparr>,
       buffer = SOAPEnvelopeStart @ ''    <Person xmlns="urn:example">\<newline>    </Person>''\<rparr>)
   \<and> Encode (freshEncoder 0) (Struct ([xmlNameField ''urn:example Person''] @ ageField 30 # [])) =
     (Returned None,
      \<lparr>writer = \<lparr>failures = 0, written = []\<rparr>,
       buffer = SOAPEnvelopeStart
         @ ''    <Person xmlns="urn:example">\<newline>      <Age xmlns="">30</Age>\<newline>    </Person>''\<rparr>)\<close>
proof -
  have h1: \<open>Name (ageField k) \<noteq> ''XMLName''\<close> for k
    by (simp add: ageField_def)
  have h2: \<open>''omitempty'' \<in> set (tl (Split (xmlTag (ageField k)) CHR '',''))\<close> for k
    by (simp add: ageField_def)
  have h3: \<open>getXMLNameAndNamespace (Struct ([xmlNameField ''urn:example Person''] @ ageField k # []))
      = Some (''Person'', ''urn:example'')\<close> for k
    by (simp add: xmlNameField_def)
  have h4: \<open>''Person'' \<noteq> []\<close> by simp
  have h5: \<open>panicFree ([xmlNameField ''urn:example Person''] @ ageField k # [])\<close> for k
    by (simp add: panicFree_def emitted_def xmlNameField_def ageField_def)
  have zero: \<open>IsZero (Value (ageField 0))\<close> and thirty: \<open>\<not> IsZero (Value (ageField 30))\<close>
    by (simp_all add: ageField_def)
  have el: \<open>fieldElement (ageField 30) = ''\<newline>      <Age xmlns="">30</Age>''\<close>
    by (simp add: fieldElement_def elementName_def ageField_def Sprintf_d_30)
  have pre: \<open>fieldElements [xmlNameField ''urn:example Person''] = []\<close>
    by (simp add: fieldElements_def emitted_def xmlNameField_def)
  have post: \<open>fieldElements [] = []\<close>
    by (simp add: fieldElements_def)
  from omitempty_field [OF h1 [of 0] h2 [of 0] h3 [of 0] h4 h5 [of 0], where e = \<open>freshEncoder 0\<close>] zero pre post
  have a: \<open>Encode (freshEncoder 0) (Struct ([xmlNameField ''urn:example Person''] @ ageField 0 # [])) =
     (Returned None,
      \<lparr>writer = \<lparr>failures = 0, written = []\<rparr>,
       buffer = SOAPEnvelopeStart @ ''    <Person xmlns="urn:example">\<newline>    </Person>''\<rparr>)\<close>
    by (simp add: freshEncoder_def NewEncoder_def)
  from omitempty_field [OF h1 [of 30] h2 [of 30] h3 [of 30] h4 h5 [of 30], where e = \<open>freshEncoder 0\<close>] thirty pre post el
  have b: \<open>Encode (freshEncoder 0) (Struct ([xmlNameField ''urn:example Person''] @ ageField 30 # [])) =
     (Returned None,
      \<lparr>writer = \<lparr>failures = 0, written = []\<rparr>,
       buffer = SOAPEnvelopeStart
         @ ''    <Person xmlns="urn:example">\<newline>      <Age xmlns="">30</Age>\<newline>    </Person>''\<rparr>)\<close>
    by (simp add: freshEncoder_def NewEncoder_def)
  from a b show ?thesis by blast
qed

text \<open>
  Claim C7. For a struct that \<^verbatim>\<open>Encode\<close> accepts, what is appended between the root's
  opening and closing tags is the concatenation, in declaration order, of one element
  for every field that is neither the \<^verbatim>\<open>XMLName\<close> field nor zero with \<^verbatim>\<open>omitempty\<close> in its tag.
  The element is \<^verbatim>\<open>\n      <fieldName xmlns="">value</fieldName>\<close>, its name the first
  comma-separated segment of the tag. The value is what the switch on the field's kind
  computes: for an integer the decimal digits of its magnitude (they are digits, and read
  back as that number), after a minus sign when it is negative; for a string the string
  itself, byte for byte; for any other kind the text of the \<^verbatim>\<open>%v\<close> fallback.
\<close>

theorem Encode_field_format:
  assumes \<open>getXMLNameAndNamespace (Struct fs) = Some (N, U)\<close>
    and \<open>N \<noteq> []\<close>
    and \<open>panicFree fs\<close>
  shows \<open>Encode e (Struct fs) =
      (Returned None,
       e\<lparr>buffer := (if buffer e = [] then SOAPEnvelopeStart else buffer e)
          @ ''    <'' @ N @ '' xmlns="'' @ U @ ''">''
          @ concat (map fieldElement
              (filter (\<lambda>f. Name f \<noteq> ''XMLName''
                 \<and> \<not> (IsZero (Value f) \<and> Contains (xmlTag f) ''omitempty'')) fs))
          @ ''\<newline>    </'' @ N @ ''>''\<rparr>)
    \<and> (\<forall>f. fieldElement f =
          ''\<newline>      <'' @ hd (Split (xmlTag f) CHR '','') @ '' xmlns="">'' @ renderValue (Value f)
            @ ''</'' @ hd (Split (xmlTag f) CHR '','') @ ''>'')
    \<and> (\<forall>f\<in>set fs. emitted f \<longrightarrow> fieldValueString (Value f) = Some (renderValue (Value f)))
    \<and> (\<forall>i. renderValue (IntKind i) =
          (if sint i < 0 then CHR ''-'' # digits (nat (- sint i)) else digits (nat (sint i))))
    \<and> (\<forall>k. set (digits k) \<subseteq> set ''0123456789'' \<and> decimalValue (digits k) = k)
    \<and> (\<forall>s. renderValue (StringKind s) = s)
    \<and> (\<forall>z t. renderValue (OtherKind z (Some t)) = t)\<close>
proof -
  from assms(1) have fx: \<open>findXMLName fs = (N, U)\<close> by simp
  have c1: \<open>Encode e (Struct fs) =
      (Returned None,
       e\<lparr>buffer := (if buffer e = [] then SOAPEnvelopeStart else buffer e)
          @ ''    <'' @ N @ '' xmlns="'' @ U @ ''">''
          @ concat (map fieldElement
              (filter (\<lambda>f. Name f \<noteq> ''XMLName''
                 \<and> \<not> (IsZero (Value f) \<and> Contains (xmlTag f) ''omitempty'')) fs))
          @ ''\<newline>    </'' @ N @ ''>''\<rparr>)\<close>
    using Encode_Struct [OF fx assms(2,3), of e]
    by (simp add: rootBlock_def fieldElements_def emitted_def [abs_def])
  have c2: \<open>\<forall>f. fieldElement f =
          ''\<newline>      <'' @ hd (Split (xmlTag f) CHR '','') @ '' xmlns="">'' @ renderValue (Value f)
            @ ''</'' @ hd (Split (xmlTag f) CHR '','') @ ''>''\<close>
    by (simp add: fieldElement_def elementName_Split)
  have c3: \<open>\<forall>f\<in>set fs. emitted f \<longrightarrow> fieldValueString (Value f) = Some (renderValue (Value f))\<close>
  proof (intro ballI impI)
    fix f assume \<open>f \<in> set fs\<close> and \<open>emitted f\<close>
    with assms(3) have \<open>fieldValueString (Value f) \<noteq> None\<close>
      by (auto simp: panicFree_def list_all_iff)
    then show \<open>fieldValueString (Value f) = Some (renderValue (Value f))\<close>
      by (cases \<open>Value f\<close>) auto
  qed
  have c4: \<open>\<forall>i. renderValue (IntKind i) =
          (if sint i < 0 then CHR ''-'' # digits (nat (- sint i)) else digits (nat (sint i)))\<close>
    by (simp add: Sprintf_d_def)
  have c5: \<open>\<forall>k. set (digits k) \<subseteq> set ''0123456789'' \<and> decimalValue (digits k) = k\<close>
    using digits_are_decimal digits_value by blast
  have c6: \<open>\<forall>s. renderValue (StringKind s) = s\<close> by simp
  have c7: \<open>\<forall>z t. renderValue (OtherKind z (Some t)) = t\<close> by simp
  from c1 c2 c3 c4 c5 c6 c7 show ?thesis by blast
qed

theorem Encode_field_format_witness:
  \<open>Encode (freshEncoder 0) (Struct account) =
     (Returned None,
      \<lparr>writer = \<lparr>failures = 0, written = []\<rparr>,
       buffer = SOAPEnvelopeStart
         @ ''    <Account xmlns="urn:bank">\<newline>      <Balance xmlns="">-7</Balance>\<newline>      <Note xmlns="">a<b</Note>\<newline>      <Active xmlns="">true</Active>\<newline>    </Account>''\<rparr>)\<close>
proof -
  have h2: \<open>''Account'' \<noteq> []\<close> by simp
  from Encode_field_format [OF account_XMLName h2 account_panicFree, of \<open>freshEncoder 0\<close>]
  have \<open>Encode (freshEncoder 0) (Struct account) =
      (Returned None,
       (freshEncoder 0)\<lparr>buffer := (if buffer (freshEncoder 0) = [] then SOAPEnvelopeStart
            else buffer (freshEncoder 0))
          @ ''    <'' @ ''Account'' @ '' xmlns="'' @ ''urn:bank'' @ ''">''
          @ concat (map fieldElement
              (filter (\<lambda>f. Name f \<noteq> ''XMLName''
                 \<and> \<not> (IsZero (Value f) \<and> Contains (xmlTag f) ''omitempty'')) account))
          @ ''\<newline>    </'' @ ''Account'' @ ''>''\<rparr>)\<close>
    by (rule conjunct1)
  moreover have \<open>concat (map fieldElement
              (filter (\<lambda>f. Name f \<noteq> ''XMLName''
                 \<and> \<not> (IsZero (Value f) \<and> Contains (xmlTag f) ''omitempty'')) account))
      = fieldElements account\<close>
    by (simp add: fieldElements_def emitted_def [abs_def])
  ultimately show ?thesis
    by (simp add: account_fieldElements freshEncoder_def NewEncoder_def)
qed

end
